theory Spec2Isabelle
  imports Main "HOL-Library.Char_ord" "HOL-Library.List_Lexorder" "HOL-Library.Multiset"
begin

section \<open>Data model of \<open>src/index.tsx\<close>\<close>

text \<open>
  The application keeps one mutable object \<open>state\<close>; every event handler reads it and
  replaces parts of it through \<open>setState\<close>. The model passes the state explicitly: a
  handler is a function from the state before to the state after. A handler that stops
  early (after an \<open>alert\<close>, or silently) returns the state it was given, together with
  the outcome where the handler reports one.

  Numbers that are identifiers are integers (\<open>int\<close>). Optional fields (\<open>field?: T\<close>) and
  \<open>T | null\<close> are \<open>T option\<close>. A time stamp is written by the source as
  \<open>new Date().toISOString()\<close>; the model keeps the instant itself (milliseconds, a
  \<open>nat\<close>) that the clock returned, which the handlers take as the argument \<open>now\<close>.
  The activity feed (\<open>logActivity\<close>) and the debounced save to local storage are not
  part of the model: neither feeds back into the collections. The record \<open>state\<close> has
  the fields of the source's \<open>state\<close> that the handlers below read or write; of
  \<open>chatSession\<close>, the handle of the chat service, it keeps whether there is one.

  The page itself is not modelled. The render functions write the text fields of a
  visitor into the markup as they are, and the click listener of the grid calls a handler
  for any button it finds there; so which handler calls a page can lead to is not read
  off the templates. The results below are about the handlers, called with any argument,
  and about what the templates themselves write.
\<close>

datatype VisitorStatus = Pending | Approved | Rejected | Checked_in | Checked_out

datatype UserRole = Admin | Security | Officer | Resident

record Visitor =
  v_id :: int
  v_name :: string
  v_contact :: string
  v_purpose :: string
  v_resident :: string
  v_block :: "string option"
  v_houseNo :: "string option"
  v_vehicle :: "string option"
  v_carBrand :: "string option"
  v_photo :: "string option"
  v_status :: VisitorStatus
  v_checkInTime :: "nat option"
  v_checkOutTime :: "nat option"

record User =
  u_id :: int
  u_username :: string
  u_password :: "string option"
  u_role :: UserRole
  u_unitNo :: "string option"

record PredefinedUnit =
  block :: string
  houseNo :: string

datatype Sender = user | bot | admin

record ChatMessage =
  sender :: Sender
  text_of :: string

record PendingChat =
  c_id :: int
  c_userId :: "int option"
  c_userName :: string
  c_unit :: string
  c_initialQuery :: string
  c_messages :: "ChatMessage list"
  c_dismissed :: bool
  c_adminReplied :: bool

datatype ChatState = pre_form | chatting

datatype AppView = View_login | View_dashboard | View_overview

record state =
  visitors :: "Visitor list"
  isModalOpen :: bool
  editingVisitorId :: "int option"
  currentView :: AppView
  isAuthenticated :: bool
  loginError :: string
  currentUser :: "User option"
  users :: "User list"
  searchQuery :: string
  predefinedUnits :: "PredefinedUnit list"
  isApprovalModalOpen :: bool
  capturedPhotoData :: "string option"
  chatState :: ChatState
  chatMessages :: "ChatMessage list"
  isChatOpen :: bool
  isBotTyping :: bool
  chatSession :: bool
  pendingChats :: "PendingChat list"
  isChatNotificationModalOpen :: bool
  viewingChatId :: "int option"
  activeChatId :: "int option"

section \<open>String helpers of the platform\<close>

text \<open>
  Strings are lists of 8-bit characters. \<open>trim\<close> removes the white space characters
  of that range at both ends. \<open>toUpperCase\<close> follows the Unicode case mapping (it
  turns the sharp s into two letters, for one); the handlers that call it take it as the
  parameter \<open>up\<close>.
\<close>

definition is_space :: "char \<Rightarrow> bool" where
  "is_space c = (c \<in> set [CHR '' '', CHR 0x09, CHR 0x0A, CHR 0x0B, CHR 0x0C, CHR 0x0D, CHR 0xA0])"

definition trim :: "string \<Rightarrow> string" where
  "trim s = rev (dropWhile is_space (rev (dropWhile is_space s)))"

text \<open>
  On text made of ASCII characters \<open>toUpperCase\<close> maps \<open>a\<close>..\<open>z\<close> to
  \<open>A\<close>..\<open>Z\<close> and leaves the rest. \<open>ascii_upper\<close> does that; it stands for
  \<open>up\<close> where a handler is evaluated on such text.
\<close>

definition upper_char :: "char \<Rightarrow> char" where
  "upper_char c =
     (if CHR ''a'' \<le> c \<and> c \<le> CHR ''z'' then char_of (of_char c - (32::nat)) else c)"

definition ascii_upper :: "string \<Rightarrow> string" where
  "ascii_upper s = map upper_char s"

text \<open>
  \<open>Array.prototype.sort\<close> with a comparison function is a stable sort; for a consistent
  comparison function its result is the stable insertion sort's. An element goes before
  another when the comparison function gives a number that is not positive.
\<close>

fun insert_by :: "('a \<Rightarrow> 'a \<Rightarrow> int) \<Rightarrow> 'a \<Rightarrow> 'a list \<Rightarrow> 'a list" where
  "insert_by cmp x [] = [x]"
| "insert_by cmp x (y # ys) = (if cmp x y \<le> 0 then x # y # ys else y # insert_by cmp x ys)"

definition sort_by :: "('a \<Rightarrow> 'a \<Rightarrow> int) \<Rightarrow> 'a list \<Rightarrow> 'a list" where
  "sort_by cmp xs = foldr (insert_by cmp) xs []"

section \<open>Visitor lifecycle handlers\<close>

text \<open>
  \<open>handleCheckIn\<close>, \<open>handleCheckOut\<close>, \<open>handleApprove\<close> and \<open>handleReject\<close> map over
  the visitors and rewrite every record whose id is the argument. None of them reads the
  current status or the current user.
\<close>

definition handleCheckIn :: "nat \<Rightarrow> int \<Rightarrow> state \<Rightarrow> state" where
  "handleCheckIn now i st =
     st\<lparr>visitors :=
          map (\<lambda>v. if v_id v = i then v\<lparr>v_status := Checked_in, v_checkInTime := Some now\<rparr> else v)
            (visitors st)\<rparr>"

definition handleCheckOut :: "nat \<Rightarrow> int \<Rightarrow> state \<Rightarrow> state" where
  "handleCheckOut now i st =
     st\<lparr>visitors :=
          map (\<lambda>v. if v_id v = i then v\<lparr>v_status := Checked_out, v_checkOutTime := Some now\<rparr> else v)
            (visitors st)\<rparr>"

definition handleApprove :: "int \<Rightarrow> state \<Rightarrow> state" where
  "handleApprove i st =
     (let vs = map (\<lambda>v. if v_id v = i then v\<lparr>v_status := Approved\<rparr> else v) (visitors st);
          stillPending = list_ex (\<lambda>v. v_status v = Pending) vs
      in st\<lparr>visitors := vs, isApprovalModalOpen := (isApprovalModalOpen st \<and> stillPending)\<rparr>)"

definition handleReject :: "int \<Rightarrow> state \<Rightarrow> state" where
  "handleReject i st =
     (let vs = map (\<lambda>v. if v_id v = i then v\<lparr>v_status := Rejected\<rparr> else v) (visitors st);
          stillPending = list_ex (\<lambda>v. v_status v = Pending) vs
      in st\<lparr>visitors := vs, isApprovalModalOpen := (isApprovalModalOpen st \<and> stillPending)\<rparr>)"

text \<open>\<open>handleEditClick\<close> opens the form on a visitor; \<open>visitor?.photo || null\<close> drops an empty photo.\<close>

definition truthy_str :: "string option \<Rightarrow> string option" where
  "truthy_str s = (case s of None \<Rightarrow> None | Some t \<Rightarrow> if t = [] then None else Some t)"

definition handleEditClick :: "int \<Rightarrow> state \<Rightarrow> state" where
  "handleEditClick i st =
     st\<lparr>isModalOpen := True, editingVisitorId := Some i,
        capturedPhotoData :=
          (case find (\<lambda>v. v_id v = i) (visitors st) of
             None \<Rightarrow> None | Some v \<Rightarrow> truthy_str (v_photo v))\<rparr>"

definition handleRegisterClick :: "state \<Rightarrow> state" where
  "handleRegisterClick st = st\<lparr>isModalOpen := True, editingVisitorId := None, capturedPhotoData := None\<rparr>"

definition handleCloseModal :: "state \<Rightarrow> state" where
  "handleCloseModal st = st\<lparr>isModalOpen := False, editingVisitorId := None, capturedPhotoData := None\<rparr>"

text \<open>The values of the visitor form, as \<open>FormData\<close> hands them to \<open>handleFormSubmit\<close>.\<close>

record VisitorForm =
  f_name :: string
  f_contact :: string
  f_purpose :: string
  f_block :: string
  f_houseNo :: string
  f_vehicle :: string
  f_carBrand :: string

text \<open>
  \<open>handleFormSubmit\<close>: with a truthy \<open>editingVisitorId\<close> (an id other than 0) the
  visitor of that id is rewritten, status and time stamps kept; otherwise a new Pending
  visitor whose id is \<open>Date.now()\<close> is put in front.
\<close>

definition handleFormSubmit ::
  "(string \<Rightarrow> string) \<Rightarrow> nat \<Rightarrow> VisitorForm \<Rightarrow> state \<Rightarrow> state" where
  "handleFormSubmit up now f st =
     (let blk = up (trim (f_block f));
          hno = trim (f_houseNo f);
          residentUnit = blk @ ''-'' @ hno;
          name = up (trim (f_name f));
          purpose = up (trim (f_purpose f));
          vehicle = up (trim (f_vehicle f));
          carBrand = up (trim (f_carBrand f));
          contact = trim (f_contact f);
          photo = truthy_str (capturedPhotoData st)
      in if editingVisitorId st \<noteq> None \<and> editingVisitorId st \<noteq> Some 0 then
           st\<lparr>visitors :=
                map (\<lambda>v. if Some (v_id v) = editingVisitorId st
                          then v\<lparr>v_name := name, v_contact := contact, v_purpose := purpose,
                                 v_resident := residentUnit, v_block := Some blk,
                                 v_houseNo := Some hno, v_vehicle := Some vehicle,
                                 v_carBrand := Some carBrand,
                                 v_photo := (case photo of None \<Rightarrow> v_photo v | Some p \<Rightarrow> Some p)\<rparr>
                          else v) (visitors st),
              isModalOpen := False, editingVisitorId := None, capturedPhotoData := None\<rparr>
         else
           st\<lparr>visitors :=
                \<lparr>v_id = int now, v_name = name, v_contact = contact, v_purpose = purpose,
                 v_resident = residentUnit, v_block = Some blk, v_houseNo = Some hno,
                 v_vehicle = Some vehicle, v_carBrand = Some carBrand, v_photo = photo,
                 v_status = Pending, v_checkInTime = None, v_checkOutTime = None\<rparr>
                # visitors st,
              isModalOpen := False, capturedPhotoData := None\<rparr>)"

section \<open>The buttons the templates write\<close>

text \<open>
  The action buttons carry \<open>data-action\<close> and \<open>data-visitor-id\<close>. The card template
  of \<open>renderVisitorsGrid\<close> writes, for one visitor and the role of the current user, the
  buttons of \<open>card_buttons\<close>, in this order. \<open>renderApprovalModal\<close> writes
  nothing unless \<open>isApprovalModalOpen\<close> is set; its item template goes over the Pending
  visitors and writes an approve and a reject button for each. It reads no role.
\<close>

datatype action = Act_approve | Act_reject | Act_check_in | Act_check_out | Act_edit

definition canEdit :: "UserRole \<Rightarrow> bool" where
  "canEdit r = (r \<in> set [Admin, Officer])"

definition canApprove :: "UserRole \<Rightarrow> bool" where
  "canApprove r = (r \<in> set [Admin, Officer])"

definition canCheckIn :: "UserRole \<Rightarrow> bool" where
  "canCheckIn r = (r \<in> set [Admin, Security])"

definition card_buttons :: "UserRole \<Rightarrow> Visitor \<Rightarrow> (action \<times> int) list" where
  "card_buttons r v =
     (if v_status v = Pending \<and> canApprove r then [(Act_approve, v_id v)] else []) @
     (if v_status v = Pending \<and> canApprove r then [(Act_reject, v_id v)] else []) @
     (if v_status v = Approved \<and> canCheckIn r then [(Act_check_in, v_id v)] else []) @
     (if v_status v = Checked_in \<and> canCheckIn r then [(Act_check_out, v_id v)] else []) @
     (if canEdit r then [(Act_edit, v_id v)] else [])"

definition approval_item_buttons :: "Visitor \<Rightarrow> (action \<times> int) list" where
  "approval_item_buttons v =
     (if v_status v = Pending then [(Act_approve, v_id v), (Act_reject, v_id v)] else [])"

text \<open>
  \<open>written_for st a i\<close>: a template writes the button of action \<open>a\<close> and id \<open>i\<close>
  for some visitor of the state: the card template for the role of the current user, or,
  with the approval modal open, the item template. The grid shows a part of the visitors
  only (a Resident's own, and those that match the search text), so the buttons that the
  templates write into a page are among these. Other markup of the page can hold buttons
  that are not.
\<close>

definition written_for :: "state \<Rightarrow> action \<Rightarrow> int \<Rightarrow> bool" where
  "written_for st a i =
     list_ex (\<lambda>v. (case currentUser st of
                       None \<Rightarrow> False
                     | Some cu \<Rightarrow> (a, i) \<in> set (card_buttons (u_role cu) v))
                  \<or> isApprovalModalOpen st \<and> (a, i) \<in> set (approval_item_buttons v))
       (visitors st)"

section \<open>Chat threads\<close>

text \<open>
  The two chat handlers wait for the chat-completion service. Its answer is the argument
  \<open>reply\<close>: \<open>Some text\<close> when \<open>sendMessage\<close> returns, \<open>None\<close> when it throws and the
  \<open>catch\<close> branch runs. No other handler runs in between. A handler that shows an
  \<open>alert\<close> returns its text beside the state.
\<close>

definition start_apology :: string where
  "start_apology = ''Sorry, I'' @ [CHR 0x27] @ ''m having trouble connecting. Please try again later.''"

definition reply_apology :: string where
  "reply_apology =
     ''Sorry, I'' @ [CHR 0x27] @ ''m having trouble connecting right now. Please try again later.''"

definition truthy_id :: "int option \<Rightarrow> bool" where
  "truthy_id x = (x \<noteq> None \<and> x \<noteq> Some 0)"

definition handleStartChatSubmit ::
  "nat \<Rightarrow> string \<Rightarrow> string \<Rightarrow> string \<Rightarrow> string \<Rightarrow> string option \<Rightarrow> state \<Rightarrow> string option \<times> state" where
  "handleStartChatSubmit now name blk hno query reply st =
     (let initialQuery = trim query
      in if name = [] \<or> blk = [] \<or> hno = [] \<or> initialQuery = []
         then (Some ''Please fill out all fields to start the chat.'', st)
         else
           (let firstUserMessage = \<lparr>sender = user, text_of = initialQuery\<rparr>;
                newChatId = int now;
                st1 = st\<lparr>chatSession := True, chatState := chatting,
                         chatMessages := [firstUserMessage], isBotTyping := True,
                         activeChatId := Some newChatId\<rparr>
            in case reply of
                 Some botText \<Rightarrow>
                   (let finalMessages = [firstUserMessage, \<lparr>sender = bot, text_of = botText\<rparr>];
                        newPendingChat =
                          \<lparr>c_id = newChatId,
                           c_userId = (case currentUser st1 of
                                         None \<Rightarrow> None
                                       | Some cu \<Rightarrow> if u_id cu = 0 then None else Some (u_id cu)),
                           c_userName = name, c_unit = blk @ ''-'' @ hno,
                           c_initialQuery = initialQuery, c_messages = finalMessages,
                           c_dismissed = False, c_adminReplied = False\<rparr>
                    in (None, st1\<lparr>chatMessages := finalMessages, isBotTyping := False,
                                  pendingChats := pendingChats st1 @ [newPendingChat]\<rparr>))
               | None \<Rightarrow>
                   (None, st1\<lparr>chatMessages :=
                                chatMessages st1 @ [\<lparr>sender = bot, text_of = start_apology\<rparr>],
                              isBotTyping := False\<rparr>)))"

definition handleUserChatSubmit :: "string \<Rightarrow> string option \<Rightarrow> state \<Rightarrow> state" where
  "handleUserChatSubmit input reply st =
     (let userInput = trim input
      in if userInput = [] \<or> \<not> chatSession st \<or> \<not> truthy_id (activeChatId st) then st
         else
           (let currentMessages = chatMessages st @ [\<lparr>sender = user, text_of = userInput\<rparr>];
                st1 = st\<lparr>chatMessages := currentMessages, isBotTyping := True\<rparr>;
                st2 = st1\<lparr>pendingChats :=
                           map (\<lambda>c. if Some (c_id c) = activeChatId st1
                                     then c\<lparr>c_messages := currentMessages\<rparr> else c)
                             (pendingChats st1)\<rparr>
            in case reply of
                 Some botText \<Rightarrow>
                   (let finalMessages = currentMessages @ [\<lparr>sender = bot, text_of = botText\<rparr>]
                    in st2\<lparr>chatMessages := finalMessages, isBotTyping := False,
                           pendingChats :=
                             map (\<lambda>c. if Some (c_id c) = activeChatId st2
                                       then c\<lparr>c_messages := finalMessages\<rparr> else c)
                               (pendingChats st2)\<rparr>)
               | None \<Rightarrow>
                   st2\<lparr>chatMessages := currentMessages @ [\<lparr>sender = bot, text_of = reply_apology\<rparr>],
                       isBotTyping := False\<rparr>))"

text \<open>
  \<open>handleAdminChatSubmit\<close> calls \<open>setState({chatMessages: newMessages})\<close> inside the map,
  once for each chat of the viewed id; the last call decides \<open>chatMessages\<close>.
\<close>

definition handleAdminChatSubmit :: "string \<Rightarrow> state \<Rightarrow> state" where
  "handleAdminChatSubmit input st =
     (let adminInput = trim input
      in if adminInput = [] \<or> \<not> truthy_id (viewingChatId st) then st
         else
           (let adminMessage = \<lparr>sender = admin, text_of = adminInput\<rparr>;
                viewed = filter (\<lambda>c. Some (c_id c) = viewingChatId st) (pendingChats st)
            in st\<lparr>chatMessages :=
                     (if viewed = [] then chatMessages st
                      else c_messages (last viewed) @ [adminMessage]),
                   pendingChats :=
                     map (\<lambda>c. if Some (c_id c) = viewingChatId st
                               then c\<lparr>c_messages := c_messages c @ [adminMessage],
                                      c_adminReplied := True\<rparr>
                               else c) (pendingChats st)\<rparr>))"


definition role_in :: "User option \<Rightarrow> UserRole list \<Rightarrow> bool" where
  "role_in cu rs = (case cu of None \<Rightarrow> False | Some u \<Rightarrow> u_role u \<in> set rs)"

definition shownChat :: "state \<Rightarrow> PendingChat option" where
  "shownChat st =
     find (\<lambda>c. Some (c_id c) = activeChatId st \<or> Some (c_id c) = viewingChatId st) (pendingChats st)"

definition isLockedForUser :: "state \<Rightarrow> bool" where
  "isLockedForUser st =
     (role_in (currentUser st) [Resident] \<and>
      (case shownChat st of None \<Rightarrow> False | Some c \<Rightarrow> c_adminReplied c))"


text \<open>
  \<open>handleToggleChat\<close> opens or closes the chat window. Opening resumes the active
  thread of a Resident and otherwise shows the start form; closing a thread that is locked
  for the user resets the chat.
\<close>

definition handleToggleChat :: "state \<Rightarrow> state" where
  "handleToggleChat st =
     (if \<not> isChatOpen st then
        (case find (\<lambda>c. Some (c_id c) = activeChatId st) (pendingChats st) of
           Some activeChat \<Rightarrow>
             if role_in (currentUser st) [Resident]
             then st\<lparr>isChatOpen := True, viewingChatId := None,
                     chatMessages := c_messages activeChat, chatState := chatting\<rparr>
             else st\<lparr>isChatOpen := True, viewingChatId := None, chatState := pre_form,
                     chatMessages := [], activeChatId := None\<rparr>
         | None \<Rightarrow>
             st\<lparr>isChatOpen := True, viewingChatId := None, chatState := pre_form,
                chatMessages := [], activeChatId := None\<rparr>)
      else if isLockedForUser st then
        st\<lparr>isChatOpen := False, chatState := pre_form, chatMessages := [], isBotTyping := False,
           chatSession := False, activeChatId := None, viewingChatId := None\<rparr>
      else st\<lparr>isChatOpen := False, viewingChatId := None\<rparr>)"

definition handleReplyToChat :: "int \<Rightarrow> state \<Rightarrow> state" where
  "handleReplyToChat chatId st =
     (case find (\<lambda>c. c_id c = chatId) (pendingChats st) of
        None \<Rightarrow> st
      | Some chatToView \<Rightarrow>
          st\<lparr>isChatNotificationModalOpen := False, isChatOpen := True, chatState := chatting,
             viewingChatId := Some chatId, chatMessages := c_messages chatToView\<rparr>)"

definition handleDismissChat :: "int \<Rightarrow> state \<Rightarrow> state" where
  "handleDismissChat chatId st =
     (let updatedChats = map (\<lambda>c. if c_id c = chatId then c\<lparr>c_dismissed := True\<rparr> else c)
                           (pendingChats st);
          stillPending = list_ex (\<lambda>c. \<not> c_dismissed c) updatedChats
      in st\<lparr>pendingChats := updatedChats, isChatNotificationModalOpen := stillPending\<rparr>)"

section \<open>Users and roles\<close>

definition adminCount :: "User list \<Rightarrow> nat" where
  "adminCount us = length (filter (\<lambda>u. u_role u = Admin) us)"

text \<open>\<open>state.currentUser?.id\<close>\<close>

definition currentUserId :: "state \<Rightarrow> int option" where
  "currentUserId st = map_option u_id (currentUser st)"

text \<open>
  \<open>handleDeleteUser\<close>. The argument \<open>confirmed\<close> is the answer to the \<open>confirm\<close>
  dialog, which is asked only when both checks have passed.
\<close>

definition handleDeleteUser :: "bool \<Rightarrow> int \<Rightarrow> state \<Rightarrow> string option \<times> state" where
  "handleDeleteUser confirmed i st =
     (case find (\<lambda>u. u_id u = i) (users st) of
        None \<Rightarrow> (None, st)
      | Some userToDelete \<Rightarrow>
          if Some (u_id userToDelete) = currentUserId st
          then (Some ''You cannot delete your own account.'', st)
          else if u_role userToDelete = Admin \<and> adminCount (users st) \<le> 1
          then (Some ''You cannot delete the last administrator.'', st)
          else if confirmed
          then (None, st\<lparr>users := filter (\<lambda>u. u_id u \<noteq> i) (users st)\<rparr>)
          else (None, st))"

text \<open>
  \<open>handleRoleChange\<close>. \<open>userIdToUpdate\<close> is the result of \<open>parseInt\<close> on the select's
  \<open>data-userid\<close>, \<open>None\<close> for \<open>NaN\<close>; \<open>newRole\<close> is the option chosen.
\<close>

definition last_admin_alert :: string where
  "last_admin_alert =
     ''You cannot change your role as you are the only administrator. Please assign the Admin role to another user first.''"

definition handleRoleChange :: "int option \<Rightarrow> UserRole \<Rightarrow> state \<Rightarrow> string option \<times> state" where
  "handleRoleChange userIdToUpdate newRole st =
     (if \<not> truthy_id userIdToUpdate then (None, st)
      else
        (let isChangingSelf = (currentUserId st = userIdToUpdate)
         in if isChangingSelf \<and> newRole \<noteq> Admin \<and> adminCount (users st) \<le> 1
            then (Some last_admin_alert, st)
            else (None, st\<lparr>users :=
                              map (\<lambda>u. if Some (u_id u) = userIdToUpdate
                                        then u\<lparr>u_role := newRole\<rparr> else u) (users st)\<rparr>)))"

section \<open>Sessions\<close>

text \<open>
  \<open>initializeUserSession\<close> opens the approval modal and the chat notification modal for
  Admin and Officer when there is something pending, and finds a Resident's active thread:
  the one of the highest id among their threads that are neither answered by an admin nor
  dismissed. The table of sessions that \<open>createSession\<close> and \<open>destroySession\<close> keep
  is not part of the model.
\<close>

definition initializeUserSession :: "User \<Rightarrow> state \<Rightarrow> state" where
  "initializeUserSession u st =
     (let pendingVisitorsExist = list_ex (\<lambda>v. v_status v = Pending) (visitors st);
          shouldShowApprovalModal = (u_role u \<in> set [Admin, Officer] \<and> pendingVisitorsExist);
          pendingChatsExist = list_ex (\<lambda>c. \<not> c_dismissed c) (pendingChats st);
          shouldShowChatModal = (u_role u \<in> set [Admin, Officer] \<and> pendingChatsExist);
          theirChats =
            sort_by (\<lambda>a b. c_id b - c_id a)
              (filter (\<lambda>c. c_userId c = Some (u_id u) \<and> \<not> c_adminReplied c \<and> \<not> c_dismissed c)
                 (pendingChats st));
          userActiveChatId =
            (if u_role u = Resident
             then (case theirChats of [] \<Rightarrow> None | c # _ \<Rightarrow> Some (c_id c))
             else None)
      in st\<lparr>isAuthenticated := True, currentView := View_dashboard, currentUser := Some u,
            loginError := [], isApprovalModalOpen := shouldShowApprovalModal,
            isChatNotificationModalOpen := shouldShowChatModal,
            activeChatId := userActiveChatId\<rparr>)"

definition handleLoginSubmit :: "string \<Rightarrow> string \<Rightarrow> state \<Rightarrow> state" where
  "handleLoginSubmit username password st =
     (case find (\<lambda>u. u_username u = username \<and> u_password u = Some password) (users st) of
        Some u \<Rightarrow> initializeUserSession u st
      | None \<Rightarrow> st\<lparr>loginError := ''Invalid username or password.''\<rparr>)"

definition handleLogout :: "state \<Rightarrow> state" where
  "handleLogout st =
     st\<lparr>isAuthenticated := False, currentView := View_login, currentUser := None,
        isModalOpen := False, editingVisitorId := None, isApprovalModalOpen := False,
        searchQuery := [], isChatOpen := False, chatState := pre_form, chatMessages := [],
        isBotTyping := False, chatSession := False, viewingChatId := None,
        activeChatId := None, isChatNotificationModalOpen := False\<rparr>"

section \<open>Unit registry\<close>

text \<open>
  The comparison function of \<open>handleAddUnitSubmit\<close>: blocks by \<open><\<close> on strings (code
  units, lexicographic), then house numbers by
  \<open>localeCompare(_, undefined, {numeric: true})\<close>. The latter belongs to the platform's
  collation and is the parameter \<open>lc\<close>.
\<close>

definition unit_compare :: "(string \<Rightarrow> string \<Rightarrow> int) \<Rightarrow> PredefinedUnit \<Rightarrow> PredefinedUnit \<Rightarrow> int" where
  "unit_compare lc a b =
     (if block a < block b then - 1
      else if block a > block b then 1
      else lc (houseNo a) (houseNo b))"

definition handleAddUnitSubmit ::
  "(string \<Rightarrow> string) \<Rightarrow> (string \<Rightarrow> string \<Rightarrow> int) \<Rightarrow> string \<Rightarrow> string \<Rightarrow> state
     \<Rightarrow> string option \<times> state" where
  "handleAddUnitSubmit up lc blockInput houseNoInput st =
     (let blk = up (trim blockInput);
          hno = trim houseNoInput
      in if blk = [] \<or> hno = []
         then (Some ''Both Block and House No. are required.'', st)
         else if list_ex (\<lambda>u. block u = blk \<and> houseNo u = hno) (predefinedUnits st)
         then (Some ''This unit already exists.'', st)
         else (None, st\<lparr>predefinedUnits :=
                           sort_by (unit_compare lc)
                             (predefinedUnits st @ [\<lparr>block = blk, houseNo = hno\<rparr>])\<rparr>))"

text \<open>
  What the sort needs of \<open>localeCompare\<close>: the sign of the result turns over when the
  arguments are swapped, and "not after" is transitive.
\<close>

definition consistent_compare :: "(string \<Rightarrow> string \<Rightarrow> int) \<Rightarrow> bool" where
  "consistent_compare lc =
     ((\<forall>x y. (lc x y < 0) = (0 < lc y x)) \<and>
      (\<forall>x y z. lc x y \<le> 0 \<longrightarrow> lc y z \<le> 0 \<longrightarrow> lc x z \<le> 0))"

definition unit_le :: "(string \<Rightarrow> string \<Rightarrow> int) \<Rightarrow> PredefinedUnit \<Rightarrow> PredefinedUnit \<Rightarrow> bool" where
  "unit_le lc a b = (block a < block b \<or> (block a = block b \<and> lc (houseNo a) (houseNo b) \<le> 0))"

text \<open>
  A comparison of strings of decimal digits by the number they denote, as the numeric
  collation compares them; it stands for \<open>lc\<close> where a concrete registry is evaluated.
\<close>

definition digits_value :: "string \<Rightarrow> nat" where
  "digits_value s = foldl (\<lambda>n c. 10 * n + (of_char c - 48)) 0 s"

definition numeric_compare :: "string \<Rightarrow> string \<Rightarrow> int" where
  "numeric_compare a b =
     (if digits_value a < digits_value b then - 1
      else if digits_value b < digits_value a then 1 else 0)"

section \<open>Runs of handler calls\<close>

text \<open>
  The remaining handlers that write a field of the model: the capture branch of
  \<open>handleCameraAction\<close> stores the picture taken (the other branch writes no field of the
  model), and five one-line handlers close a modal, switch the view or store the search
  text.
\<close>

definition handleCameraCapture :: "string \<Rightarrow> state \<Rightarrow> state" where
  "handleCameraCapture dataUrl st = st\<lparr>capturedPhotoData := Some dataUrl\<rparr>"

definition handleCloseApprovalModal :: "state \<Rightarrow> state" where
  "handleCloseApprovalModal st = st\<lparr>isApprovalModalOpen := False\<rparr>"

definition handleCloseChatNotificationModal :: "state \<Rightarrow> state" where
  "handleCloseChatNotificationModal st = st\<lparr>isChatNotificationModalOpen := False\<rparr>"

definition handleOverviewClick :: "state \<Rightarrow> state" where
  "handleOverviewClick st = st\<lparr>currentView := View_overview\<rparr>"

definition handleDashboardClick :: "state \<Rightarrow> state" where
  "handleDashboardClick st = st\<lparr>currentView := View_dashboard\<rparr>"

definition handleSearch :: "string \<Rightarrow> state \<Rightarrow> state" where
  "handleSearch q st = st\<lparr>searchQuery := q\<rparr>"

text \<open>
  An event is one call of a handler, with its arguments and, where the handler asks for
  them, the clock reading, the answer to \<open>confirm\<close> and the answer of the chat service. A
  run makes the calls one after the other; \<open>up\<close> and \<open>lc\<close> are the platform's
  \<open>toUpperCase\<close> and \<open>localeCompare\<close>. Nothing restricts which handler is called in which
  state. The handlers of the file that are no event (the company form, the user edit
  form, deleting a unit, opening and closing the user and unit dialogs) write the company
  information, the flags of these dialogs, name and password in \<open>users\<close>, and
  \<open>predefinedUnits\<close>.
\<close>

datatype event =
    Approve int
  | Reject int
  | CheckIn nat int
  | CheckOut nat int
  | EditClick int
  | RegisterClick
  | CloseModal
  | FormSubmit nat VisitorForm
  | CameraCapture string
  | CloseApprovalModal
  | OverviewClick
  | DashboardClick
  | Search string
  | LoginSubmit string string
  | Logout
  | ToggleChat
  | StartChat nat string string string string "string option"
  | UserChat string "string option"
  | AdminChat string
  | ReplyToChat int
  | DismissChat int
  | CloseChatNotificationModal
  | DeleteUser bool int
  | RoleChange "int option" UserRole
  | AddUnit string string

fun step :: "(string \<Rightarrow> string) \<Rightarrow> (string \<Rightarrow> string \<Rightarrow> int) \<Rightarrow> event \<Rightarrow> state \<Rightarrow> state" where
  "step up lc (Approve i) st = handleApprove i st"
| "step up lc (Reject i) st = handleReject i st"
| "step up lc (CheckIn now i) st = handleCheckIn now i st"
| "step up lc (CheckOut now i) st = handleCheckOut now i st"
| "step up lc (EditClick i) st = handleEditClick i st"
| "step up lc RegisterClick st = handleRegisterClick st"
| "step up lc CloseModal st = handleCloseModal st"
| "step up lc (FormSubmit now f) st = handleFormSubmit up now f st"
| "step up lc (CameraCapture dataUrl) st = handleCameraCapture dataUrl st"
| "step up lc CloseApprovalModal st = handleCloseApprovalModal st"
| "step up lc OverviewClick st = handleOverviewClick st"
| "step up lc DashboardClick st = handleDashboardClick st"
| "step up lc (Search q) st = handleSearch q st"
| "step up lc (LoginSubmit username password) st = handleLoginSubmit username password st"
| "step up lc Logout st = handleLogout st"
| "step up lc ToggleChat st = handleToggleChat st"
| "step up lc (StartChat now name blk hno query reply) st =
     snd (handleStartChatSubmit now name blk hno query reply st)"
| "step up lc (UserChat input reply) st = handleUserChatSubmit input reply st"
| "step up lc (AdminChat input) st = handleAdminChatSubmit input st"
| "step up lc (ReplyToChat chatId) st = handleReplyToChat chatId st"
| "step up lc (DismissChat chatId) st = handleDismissChat chatId st"
| "step up lc CloseChatNotificationModal st = handleCloseChatNotificationModal st"
| "step up lc (DeleteUser confirmed i) st = snd (handleDeleteUser confirmed i st)"
| "step up lc (RoleChange userIdToUpdate newRole) st = snd (handleRoleChange userIdToUpdate newRole st)"
| "step up lc (AddUnit blockInput houseNoInput) st =
     snd (handleAddUnitSubmit up lc blockInput houseNoInput st)"

fun run :: "(string \<Rightarrow> string) \<Rightarrow> (string \<Rightarrow> string \<Rightarrow> int) \<Rightarrow> event list \<Rightarrow> state \<Rightarrow> state" where
  "run up lc [] st = st"
| "run up lc (e # es) st = run up lc es (step up lc e st)"

text \<open>\<open>holds_along P\<close>: along the run, \<open>P\<close> holds of every event in the state it is called in.\<close>

fun holds_along ::
  "(event \<Rightarrow> state \<Rightarrow> bool) \<Rightarrow> (string \<Rightarrow> string) \<Rightarrow> (string \<Rightarrow> string \<Rightarrow> int) \<Rightarrow> event list
     \<Rightarrow> state \<Rightarrow> bool" where
  "holds_along P up lc [] st = True"
| "holds_along P up lc (e # es) st = (P e st \<and> holds_along P up lc es (step up lc e st))"

text \<open>
  \<open>lifecycle_ok\<close>: an approve, reject, check-in or check-out call is for a button that a
  template writes in the state of the call, and a registration gets an id that no visitor
  has (\<open>Date.now()\<close> is the id; the code does not compare it with the ids in use).
\<close>

fun lifecycle_ok :: "event \<Rightarrow> state \<Rightarrow> bool" where
  "lifecycle_ok (Approve i) st = written_for st Act_approve i"
| "lifecycle_ok (Reject i) st = written_for st Act_reject i"
| "lifecycle_ok (CheckIn now i) st = written_for st Act_check_in i"
| "lifecycle_ok (CheckOut now i) st = written_for st Act_check_out i"
| "lifecycle_ok (FormSubmit now f) st =
     (truthy_id (editingVisitorId st) \<or> int now \<notin> set (map v_id (visitors st)))"
| "lifecycle_ok _ st = True"





section \<open>Seed data\<close>

definition mk_visitor :: "int \<Rightarrow> string \<Rightarrow> string \<Rightarrow> VisitorStatus \<Rightarrow> nat option \<Rightarrow> nat option \<Rightarrow> Visitor" where
  "mk_visitor i n r s tin tout =
     \<lparr>v_id = i, v_name = n, v_contact = ''555'', v_purpose = ''VISIT'', v_resident = r,
      v_block = None, v_houseNo = None, v_vehicle = None, v_carBrand = None, v_photo = None,
      v_status = s, v_checkInTime = tin, v_checkOutTime = tout\<rparr>"

definition mk_user :: "int \<Rightarrow> string \<Rightarrow> UserRole \<Rightarrow> string option \<Rightarrow> User" where
  "mk_user i n r un = \<lparr>u_id = i, u_username = n, u_password = Some ''password'', u_role = r, u_unitNo = un\<rparr>"

definition mockUsers :: "User list" where
  "mockUsers =
     [mk_user 1 ''admin'' Admin None, mk_user 2 ''security'' Security None,
      mk_user 3 ''officer'' Officer None, mk_user 4 ''resident101'' Resident (Some ''A-101''),
      mk_user 5 ''resident203'' Resident (Some ''B-203'')]"

definition init_state :: state where
  "init_state =
     \<lparr>visitors = [], isModalOpen = False, editingVisitorId = None, currentView = View_login,
      isAuthenticated = False, loginError = [], currentUser = None, users = [],
      searchQuery = [], predefinedUnits = [], isApprovalModalOpen = False,
      capturedPhotoData = None, chatState = pre_form, chatMessages = [], isChatOpen = False,
      isBotTyping = False, chatSession = False, pendingChats = [],
      isChatNotificationModalOpen = False, viewingChatId = None, activeChatId = None\<rparr>"

text \<open>
  A running state: the seed users, the current user given, and three visitors after the
  pattern of \<open>mockVisitors\<close> (Approved, Checked-in at instant 1000, Pending) with a
  Rejected and a Checked-out one added.
\<close>

definition demo_visitors :: "Visitor list" where
  "demo_visitors =
     [mk_visitor 1 ''ALICE JOHNSON'' ''A-101'' Approved None None,
      mk_visitor 2 ''BOB WILLIAMS'' ''B-203'' Checked_in (Some 1000) None,
      mk_visitor 3 ''CHARLIE BROWN'' ''C-305'' Pending None None,
      mk_visitor 4 ''DAN'' ''A-101'' Rejected None None,
      mk_visitor 5 ''EVE'' ''A-101'' Checked_out (Some 1000) (Some 2000)]"

definition demo_state :: "User \<Rightarrow> state" where
  "demo_state cu =
     init_state\<lparr>visitors := demo_visitors, users := mockUsers, isAuthenticated := True,
                currentUser := Some cu\<rparr>"

section \<open>Concrete states\<close>

text \<open>Users, visitors, a form, two runs and two registries on which the results below are evaluated.\<close>

definition demo_admin :: User where "demo_admin = mk_user 1 ''admin'' Admin None"

definition demo_security :: User where "demo_security = mk_user 2 ''security'' Security None"

definition demo_resident :: User where "demo_resident = mk_user 4 ''resident101'' Resident (Some ''A-101'')"

definition eve :: Visitor where
  "eve = mk_visitor 5 ''EVE'' ''A-101'' Checked_out (Some 1000) (Some 2000)"

definition bob :: Visitor where
  "bob = mk_visitor 2 ''BOB WILLIAMS'' ''B-203'' Checked_in (Some 1000) None"

definition id_status :: "state \<Rightarrow> (int \<times> VisitorStatus) list" where
  "id_status st = zip (map v_id (visitors st)) (map v_status (visitors st))"

definition demo_form :: VisitorForm where
  "demo_form = \<lparr>f_name = ''john doe'', f_contact = ''555-0000'', f_purpose = ''visit'',
                 f_block = ''a'', f_houseNo = ''101'', f_vehicle = [], f_carBrand = []\<rparr>"

text \<open>
  The Admin edits the Checked-out visitor 5, registers a visitor under the id 6000,
  approves and checks them in; Security then checks them out and checks visitor 1 in.
\<close>

definition demo_events :: "event list" where
  "demo_events =
     [EditClick 5, FormSubmit 13 demo_form, RegisterClick, FormSubmit 6000 demo_form,
      Approve 6000, CheckIn 15 6000, Logout, LoginSubmit ''security'' ''password'',
      CheckOut 17 6000, CheckIn 18 1]"



definition two_admins :: state where
  "two_admins =
     (demo_state demo_admin)\<lparr>users := mockUsers @ [mk_user 6 ''admin2'' Admin None]\<rparr>"

definition unit_A10 :: state where
  "unit_A10 = (demo_state demo_admin)\<lparr>predefinedUnits := [\<lparr>block = ''A'', houseNo = ''10''\<rparr>, \<lparr>block = ''B'', houseNo = ''2''\<rparr>]\<rparr>"


text \<open>
  Two records agree on what the lifecycle owns: the id, the status and both time stamps.
\<close>

definition same_lifecycle :: "Visitor \<Rightarrow> Visitor \<Rightarrow> bool" where
  "same_lifecycle v w =
     (v_id w = v_id v \<and> v_status w = v_status v \<and>
      v_checkInTime w = v_checkInTime v \<and> v_checkOutTime w = v_checkOutTime v)"

section \<open>Facts about the handlers and the templates\<close>

lemmas demo_defs = demo_state_def demo_visitors_def mk_visitor_def init_state_def
  demo_admin_def demo_security_def demo_resident_def mk_user_def eve_def bob_def

lemmas user_defs = two_admins_def mockUsers_def

lemma map_upd_absent:
  "i \<notin> v_id ` set vs \<Longrightarrow> map (\<lambda>v. if v_id v = i then g v else v) vs = vs"
  by (induction vs) auto

lemma map_upd_keeps:
  "v \<in> set vs \<Longrightarrow> v_id v \<noteq> i \<Longrightarrow> v \<in> set (map (\<lambda>w. if v_id w = i then g w else w) vs)"
  by (induction vs) auto

lemma map_upd_hits:
  "v \<in> set vs \<Longrightarrow> v_id v = i \<Longrightarrow> g v \<in> set (map (\<lambda>w. if v_id w = i then g w else w) vs)"
  by (induction vs) auto

lemma ids_map_upd:
  "(\<And>v. v_id (g v) = v_id v) \<Longrightarrow> map v_id (map (\<lambda>w. if p w then g w else w) vs) = map v_id vs"
  by (induction vs) auto

lemma map_cond_rel:
  assumes "v \<in> set vs" and "\<And>w. R w (g w)" and "\<And>w. R w w"
  shows "\<exists>v' \<in> set (map (\<lambda>w. if p w then g w else w) vs). R v v'"
  using assms by (intro bexI [where x = "if p v then g v else v"]) auto

lemma distinct_ids_eq:
  "distinct (map v_id vs) \<Longrightarrow> v \<in> set vs \<Longrightarrow> w \<in> set vs \<Longrightarrow> v_id v = v_id w \<Longrightarrow> v = w"
  by (meson distinct_map inj_onD)

lemma find_distinct_id:
  "distinct (map v_id vs) \<Longrightarrow> v \<in> set vs \<Longrightarrow> find (\<lambda>w. v_id w = v_id v) vs = Some v"
  by (induction vs) (auto simp: image_iff)

lemma find_after_upd:
  assumes "distinct (map v_id vs)" "v \<in> set vs" "\<And>w. v_id (g w) = v_id w"
  shows "find (\<lambda>w. v_id w = v_id v) (map (\<lambda>w. if v_id w = v_id v then g w else w) vs) = Some (g v)"
proof -
  let ?vs' = "map (\<lambda>w. if v_id w = v_id v then g w else w) vs"
  have e: "map v_id ?vs' = map v_id vs" using assms(3) by (simp add: ids_map_upd)
  have d: "distinct (map v_id ?vs')" unfolding e by (rule assms(1))
  have m: "g v \<in> set ?vs'" using assms(2) by (auto intro: map_upd_hits)
  from find_distinct_id [OF d m] assms(3) show ?thesis by simp
qed

lemma visitors_handleApprove:
  "visitors (handleApprove i st) = map (\<lambda>v. if v_id v = i then v\<lparr>v_status := Approved\<rparr> else v) (visitors st)"
  by (simp add: handleApprove_def Let_def)

lemma visitors_handleReject:
  "visitors (handleReject i st) = map (\<lambda>v. if v_id v = i then v\<lparr>v_status := Rejected\<rparr> else v) (visitors st)"
  by (simp add: handleReject_def Let_def)

lemma visitors_handleCheckIn:
  "visitors (handleCheckIn now i st) =
     map (\<lambda>v. if v_id v = i then v\<lparr>v_status := Checked_in, v_checkInTime := Some now\<rparr> else v) (visitors st)"
  by (simp add: handleCheckIn_def)

lemma visitors_handleCheckOut:
  "visitors (handleCheckOut now i st) =
     map (\<lambda>v. if v_id v = i then v\<lparr>v_status := Checked_out, v_checkOutTime := Some now\<rparr> else v) (visitors st)"
  by (simp add: handleCheckOut_def)

lemma ids_handleApprove: "map v_id (visitors (handleApprove i st)) = map v_id (visitors st)"
  by (simp add: visitors_handleApprove ids_map_upd)

lemma ids_handleReject: "map v_id (visitors (handleReject i st)) = map v_id (visitors st)"
  by (simp add: visitors_handleReject ids_map_upd)

lemma ids_handleCheckIn: "map v_id (visitors (handleCheckIn now i st)) = map v_id (visitors st)"
  by (simp add: visitors_handleCheckIn ids_map_upd)

lemma ids_handleCheckOut: "map v_id (visitors (handleCheckOut now i st)) = map v_id (visitors st)"
  by (simp add: visitors_handleCheckOut ids_map_upd)

lemma card_buttons_iff:
  "(a, i) \<in> set (card_buttons r v) \<longleftrightarrow>
     v_id v = i \<and>
     (case a of
        Act_approve \<Rightarrow> v_status v = Pending \<and> canApprove r
      | Act_reject \<Rightarrow> v_status v = Pending \<and> canApprove r
      | Act_check_in \<Rightarrow> v_status v = Approved \<and> canCheckIn r
      | Act_check_out \<Rightarrow> v_status v = Checked_in \<and> canCheckIn r
      | Act_edit \<Rightarrow> canEdit r)"
  by (cases a) (auto simp: card_buttons_def)

lemma formSubmit_edit_ids:
  assumes "editingVisitorId st \<noteq> None \<and> editingVisitorId st \<noteq> Some 0"
  shows "map v_id (visitors (handleFormSubmit up now f st)) = map v_id (visitors st)"
  using assms by (simp add: handleFormSubmit_def Let_def ids_map_upd)

lemma formSubmit_edit_lifecycle:
  assumes "editingVisitorId st \<noteq> None \<and> editingVisitorId st \<noteq> Some 0" and "v \<in> set (visitors st)"
  shows "\<exists>v' \<in> set (visitors (handleFormSubmit up now f st)). same_lifecycle v v'"
proof -
  have "\<exists>v' \<in> set (map (\<lambda>w. if p w then g w else w) (visitors st)). same_lifecycle v v'"
    if "\<And>w. same_lifecycle w (g w)" for p and g :: "Visitor \<Rightarrow> Visitor"
    using assms(2) that by (rule map_cond_rel) (simp add: same_lifecycle_def)
  then show ?thesis
    using assms(1) by (simp add: handleFormSubmit_def Let_def same_lifecycle_def)
qed

lemma formSubmit_register:
  assumes "\<not> (editingVisitorId st \<noteq> None \<and> editingVisitorId st \<noteq> Some 0)"
  shows "\<exists>n. v_id n = int now \<and> v_status n = Pending
           \<and> visitors (handleFormSubmit up now f st) = n # visitors st"
  using assms by (auto simp add: handleFormSubmit_def Let_def)

text \<open>Users: with distinct ids, the id finds the user, and removing an Admin by id lowers the count by one.\<close>

lemma distinct_uids_eq:
  "distinct (map u_id us) \<Longrightarrow> u \<in> set us \<Longrightarrow> w \<in> set us \<Longrightarrow> u_id u = u_id w \<Longrightarrow> u = w"
  by (meson distinct_map inj_onD)

lemma find_distinct_uid:
  "distinct (map u_id us) \<Longrightarrow> u \<in> set us \<Longrightarrow> find (\<lambda>w. u_id w = u_id u) us = Some u"
  by (induction us) (auto simp: image_iff)

lemma filter_other_ids:
  "distinct (map u_id us) \<Longrightarrow> u \<in> set us \<Longrightarrow>
     filter (\<lambda>w. u_id w \<noteq> u_id u) us = filter (\<lambda>w. w \<noteq> u) us"
  by (rule filter_cong) (auto dest: distinct_uids_eq)

lemma adminCount_remove:
  "distinct (map u_id us) \<Longrightarrow> u \<in> set us \<Longrightarrow> u_role u = Admin \<Longrightarrow>
     adminCount (filter (\<lambda>w. u_id w \<noteq> u_id u) us) + 1 = adminCount us"
proof (induction us)
  case Nil
  then show ?case by simp
next
  case (Cons x us)
  show ?case
  proof (cases "x = u")
    case True
    with Cons.prems have "\<forall>w \<in> set us. u_id w \<noteq> u_id u" by (auto simp: image_iff)
    then have "filter (\<lambda>w. u_id w \<noteq> u_id u) us = us" by (simp add: filter_id_conv)
    with True Cons.prems(3) show ?thesis by (simp add: adminCount_def)
  next
    case False
    with Cons.prems have m: "u \<in> set us" and d: "distinct (map u_id us)" by auto
    from False Cons.prems m have ne: "u_id x \<noteq> u_id u" by (auto simp: image_iff)
    from Cons.IH [OF d m Cons.prems(3)] ne show ?thesis by (simp add: adminCount_def)
  qed
qed

lemma map_role_upd_hits:
  "u \<in> set us \<Longrightarrow> u_id u = i \<Longrightarrow>
     u\<lparr>u_role := r\<rparr> \<in> set (map (\<lambda>w. if Some (u_id w) = Some i then w\<lparr>u_role := r\<rparr> else w) us)"
  by (induction us) auto

lemma map_role_upd_keeps:
  "u \<in> set us \<Longrightarrow> u_id u \<noteq> i \<Longrightarrow>
     u \<in> set (map (\<lambda>w. if Some (u_id w) = Some i then w\<lparr>u_role := r\<rparr> else w) us)"
  by (induction us) auto

lemma map_role_upd_ids:
  "map u_id (map (\<lambda>w. if Some (u_id w) = Some i then w\<lparr>u_role := r\<rparr> else w) us) = map u_id us"
  by (induction us) auto

text \<open>The sort gives a sorted permutation when the comparison is total and transitive.\<close>

lemma set_insert_by: "set (insert_by cmp x ys) = insert x (set ys)"
  by (induction ys) auto

lemma mset_insert_by: "mset (insert_by cmp x ys) = add_mset x (mset ys)"
  by (induction ys) auto

lemma mset_sort_by: "mset (sort_by cmp xs) = mset xs"
  by (induction xs) (simp_all add: sort_by_def mset_insert_by)

lemma sorted_insert_by:
  assumes tot: "\<And>a b. le a b \<or> le b a"
    and trans: "\<And>a b c. le a b \<Longrightarrow> le b c \<Longrightarrow> le a c"
    and le_iff: "\<And>a b. (cmp a b \<le> 0) = le a b"
  shows "sorted_wrt le ys \<Longrightarrow> sorted_wrt le (insert_by cmp x ys)"
proof (induction ys)
  case Nil
  then show ?case by simp
next
  case (Cons y ys)
  show ?case
  proof (cases "cmp x y \<le> 0")
    case True
    then have xy: "le x y" by (simp add: le_iff)
    with Cons.prems have "\<forall>z \<in> set ys. le x z" by (auto intro: trans)
    with True xy Cons.prems show ?thesis by simp
  next
    case False
    then have "le y x" using tot [of x y] by (simp add: le_iff)
    with False Cons show ?thesis by (simp add: set_insert_by)
  qed
qed

lemma sorted_sort_by:
  assumes "\<And>a b. le a b \<or> le b a"
    and "\<And>a b c. le a b \<Longrightarrow> le b c \<Longrightarrow> le a c"
    and "\<And>a b. (cmp a b \<le> 0) = le a b"
  shows "sorted_wrt le (sort_by cmp xs)"
proof (induction xs)
  case Nil
  then show ?case by (simp add: sort_by_def)
next
  case (Cons x xs)
  have "sorted_wrt le (insert_by cmp x (sort_by cmp xs))"
    using assms Cons by (rule sorted_insert_by)
  then show ?case by (simp add: sort_by_def)
qed

lemma unit_compare_le: "(unit_compare lc a b \<le> 0) = unit_le lc a b"
  by (auto simp: unit_compare_def unit_le_def)

lemma unit_le_total:
  assumes "consistent_compare lc"
  shows "unit_le lc a b \<or> unit_le lc b a"
proof -
  have "lc x y \<le> 0 \<or> lc y x \<le> 0" for x y
  proof (cases "lc x y \<le> 0")
    case False
    then have "0 < lc x y" by simp
    with assms have "lc y x < 0" by (simp add: consistent_compare_def)
    then show ?thesis by simp
  qed simp
  then show ?thesis by (auto simp: unit_le_def)
qed

lemma unit_le_trans:
  assumes "consistent_compare lc" and "unit_le lc a b" and "unit_le lc b c"
  shows "unit_le lc a c"
proof -
  from assms(1) have t: "lc x y \<le> 0 \<Longrightarrow> lc y z \<le> 0 \<Longrightarrow> lc x z \<le> 0" for x y z
    unfolding consistent_compare_def by blast
  from assms(2,3) show ?thesis
    by (auto simp: unit_le_def intro: t)
qed

lemma unit_eq_iff: "(u = \<lparr>block = b, houseNo = h\<rparr>) = (block u = b \<and> houseNo u = h)"
  by (cases u) auto

lemma list_ex_unit:
  "list_ex (\<lambda>u. block u = b \<and> houseNo u = h) us = (\<lparr>block = b, houseNo = h\<rparr> \<in> set us)"
  by (induction us) (auto simp: unit_eq_iff)

lemma numeric_compare_consistent: "consistent_compare numeric_compare"
  by (auto simp: consistent_compare_def numeric_compare_def split: if_splits)

text \<open>A call on another id leaves the record of an id where it is.\<close>

lemma find_upd_other:
  assumes "distinct (map v_id vs)" "v \<in> set vs" "v_id v \<noteq> i" "\<And>w. v_id (g w) = v_id w"
  shows "find (\<lambda>w. v_id w = v_id v) (map (\<lambda>w. if v_id w = i then g w else w) vs) = Some v"
proof -
  let ?vs' = "map (\<lambda>w. if v_id w = i then g w else w) vs"
  have e: "map v_id ?vs' = map v_id vs" using assms(4) by (simp add: ids_map_upd)
  have d: "distinct (map v_id ?vs')" unfolding e by (rule assms(1))
  have m: "v \<in> set ?vs'" using assms(2,3) by (rule map_upd_keeps)
  from d m show ?thesis by (rule find_distinct_id)
qed

text \<open>
  A button that a template writes carries the id of a visitor of the state, whose status
  is the one its action starts from, and it is for the role of the current user.
\<close>

lemma approval_item_buttons_iff:
  "(a, i) \<in> set (approval_item_buttons v) \<longleftrightarrow>
     v_id v = i \<and> v_status v = Pending \<and> (a = Act_approve \<or> a = Act_reject)"
  by (auto simp: approval_item_buttons_def)

lemma written_for_iff:
  "written_for st a i \<longleftrightarrow>
     (\<exists>v \<in> set (visitors st).
        (\<exists>cu. currentUser st = Some cu \<and> (a, i) \<in> set (card_buttons (u_role cu) v))
        \<or> isApprovalModalOpen st \<and> (a, i) \<in> set (approval_item_buttons v))"
  by (auto simp: written_for_def list_ex_iff split: option.splits)

lemma written_for_status:
  assumes "written_for st a i"
  shows "\<exists>w \<in> set (visitors st). v_id w = i \<and>
           (case a of
              Act_approve \<Rightarrow> v_status w = Pending
            | Act_reject \<Rightarrow> v_status w = Pending
            | Act_check_in \<Rightarrow> v_status w = Approved
            | Act_check_out \<Rightarrow> v_status w = Checked_in
            | Act_edit \<Rightarrow> True)"
  using assms unfolding written_for_iff
  by (cases a) (auto simp: card_buttons_iff approval_item_buttons_iff)


lemma written_for_own_status:
  assumes "distinct (map v_id (visitors st))" and "v \<in> set (visitors st)"
    and "written_for st a (v_id v)"
  shows "(case a of
              Act_approve \<Rightarrow> v_status v = Pending
            | Act_reject \<Rightarrow> v_status v = Pending
            | Act_check_in \<Rightarrow> v_status v = Approved
            | Act_check_out \<Rightarrow> v_status v = Checked_in
            | Act_edit \<Rightarrow> True)"
proof -
  from written_for_status [OF assms(3)] obtain w where w: "w \<in> set (visitors st)" "v_id w = v_id v"
    and c: "(case a of
              Act_approve \<Rightarrow> v_status w = Pending
            | Act_reject \<Rightarrow> v_status w = Pending
            | Act_check_in \<Rightarrow> v_status w = Approved
            | Act_check_out \<Rightarrow> v_status w = Checked_in
            | Act_edit \<Rightarrow> True)" by blast
  from assms(1) w(1) assms(2) w(2) have "w = v" by (rule distinct_ids_eq)
  with c show ?thesis by (cases a) auto
qed

text \<open>
  One call keeps the ids distinct and a Rejected or Checked-out visitor as it is, when it
  satisfies \<open>lifecycle_ok\<close>.
\<close>

lemmas frame_defs = handleEditClick_def handleRegisterClick_def handleCloseModal_def
  handleCameraCapture_def handleCloseApprovalModal_def handleOverviewClick_def
  handleDashboardClick_def handleSearch_def handleLoginSubmit_def initializeUserSession_def
  handleLogout_def handleToggleChat_def handleStartChatSubmit_def handleUserChatSubmit_def
  handleAdminChatSubmit_def handleReplyToChat_def handleDismissChat_def
  handleCloseChatNotificationModal_def handleDeleteUser_def handleRoleChange_def
  handleAddUnitSubmit_def Let_def

lemma step_terminal:
  assumes "distinct (map v_id (visitors st))" and "lifecycle_ok e st"
    and "v \<in> set (visitors st)" and "v_status v = Rejected \<or> v_status v = Checked_out"
  shows "distinct (map v_id (visitors (step up lc e st)))
       \<and> (\<exists>v' \<in> set (visitors (step up lc e st)). same_lifecycle v v')"
proof -
  have self: "same_lifecycle v v" by (simp add: same_lifecycle_def)
  have other: "v_id v \<noteq> i" if "written_for st a i" "a \<noteq> Act_edit" for a i
    using written_for_own_status [OF assms(1,3), of a] that assms(4) by (cases a) auto
  have frame: ?thesis if "visitors (step up lc e st) = visitors st"
    using that assms(1,3) self by auto
  show ?thesis
  proof (cases e)
    case (Approve i)
    with assms(2) have "v_id v \<noteq> i" using other [of Act_approve i] by simp
    with assms(3) have "v \<in> set (visitors (handleApprove i st))"
      unfolding visitors_handleApprove by (rule map_upd_keeps)
    with Approve assms(1) self show ?thesis by (auto simp: ids_handleApprove)
  next
    case (Reject i)
    with assms(2) have "v_id v \<noteq> i" using other [of Act_reject i] by simp
    with assms(3) have "v \<in> set (visitors (handleReject i st))"
      unfolding visitors_handleReject by (rule map_upd_keeps)
    with Reject assms(1) self show ?thesis by (auto simp: ids_handleReject)
  next
    case (CheckIn now i)
    with assms(2) have "v_id v \<noteq> i" using other [of Act_check_in i] by simp
    with assms(3) have "v \<in> set (visitors (handleCheckIn now i st))"
      unfolding visitors_handleCheckIn by (rule map_upd_keeps)
    with CheckIn assms(1) self show ?thesis by (auto simp: ids_handleCheckIn)
  next
    case (CheckOut now i)
    with assms(2) have "v_id v \<noteq> i" using other [of Act_check_out i] by simp
    with assms(3) have "v \<in> set (visitors (handleCheckOut now i st))"
      unfolding visitors_handleCheckOut by (rule map_upd_keeps)
    with CheckOut assms(1) self show ?thesis by (auto simp: ids_handleCheckOut)
  next
    case (FormSubmit now f)
    show ?thesis
    proof (cases "editingVisitorId st \<noteq> None \<and> editingVisitorId st \<noteq> Some 0")
      case True
      from formSubmit_edit_ids [OF True] formSubmit_edit_lifecycle [OF True assms(3)]
        FormSubmit assms(1) show ?thesis by simp
    next
      case False
      with assms(2) FormSubmit have fresh: "int now \<notin> set (map v_id (visitors st))"
        by (auto simp: truthy_id_def)
      from formSubmit_register [OF False, where up = up and now = now and f = f] obtain n where
        n: "v_id n = int now" "visitors (handleFormSubmit up now f st) = n # visitors st"
        by blast
      with fresh assms(1,3) self FormSubmit show ?thesis by auto
    qed
  qed (rule frame, simp add: frame_defs split: option.split)+
qed






















section \<open>Lifecycle calls on an id nobody has\<close>

text \<open>
  C10. When no visitor has the id, each of \<open>handleApprove\<close>, \<open>handleReject\<close>,
  \<open>handleCheckIn\<close> and \<open>handleCheckOut\<close> returns the visitors collection as it was:
  nothing is added, removed or modified, and no error is reported.
\<close>

theorem lifecycle_missing_id_noop:
  assumes "i \<notin> v_id ` set (visitors st)"
  shows "visitors (handleApprove i st) = visitors st
       \<and> visitors (handleReject i st) = visitors st
       \<and> visitors (handleCheckIn now i st) = visitors st
       \<and> visitors (handleCheckOut now i st) = visitors st"
  using assms
  by (simp add: handleApprove_def handleReject_def handleCheckIn_def handleCheckOut_def
        Let_def map_upd_absent)

text \<open>The four calls with the id 99 on the five seed visitors.\<close>

theorem lifecycle_missing_id_noop_witness:
  "visitors (handleApprove 99 (demo_state demo_admin)) = demo_visitors
   \<and> visitors (handleReject 99 (demo_state demo_admin)) = demo_visitors
   \<and> visitors (handleCheckIn 7 99 (demo_state demo_admin)) = demo_visitors
   \<and> visitors (handleCheckOut 7 99 (demo_state demo_admin)) = demo_visitors"
proof -
  have h: "(99::int) \<notin> v_id ` set (visitors (demo_state demo_admin))"
    by (simp add: demo_defs)
  have v: "visitors (demo_state demo_admin) = demo_visitors"
    by (simp add: demo_state_def)
  show ?thesis
    using lifecycle_missing_id_noop [OF h] v by simp
qed

section \<open>Approve and reject outside Pending\<close>

text \<open>
  \<open>handleApprove\<close> and \<open>handleReject\<close> do not look at the status. Called with the id of
  the Checked-out visitor 5, \<open>handleApprove\<close> makes it Approved; called with the id of the
  Checked-in visitor 2, \<open>handleReject\<close> makes it Rejected.
\<close>

theorem approve_reject_unguarded_counterexample:
  "id_status (demo_state demo_admin)
     = [(1, Approved), (2, Checked_in), (3, Pending), (4, Rejected), (5, Checked_out)]
   \<and> id_status (handleApprove 5 (demo_state demo_admin))
     = [(1, Approved), (2, Checked_in), (3, Pending), (4, Rejected), (5, Approved)]
   \<and> id_status (handleReject 2 (demo_state demo_admin))
     = [(1, Approved), (2, Rejected), (3, Pending), (4, Rejected), (5, Checked_out)]"
  by (simp add: id_status_def handleApprove_def handleReject_def Let_def demo_defs)

text \<open>
  C1, as the code has it. Let the visitor ids be distinct and \<open>v\<close> a visitor that is not
  Pending. \<open>handleApprove\<close> and \<open>handleReject\<close>, called with the id of \<open>v\<close>, overwrite its
  status with Approved, respectively Rejected, and keep its other fields. Called with
  another id they leave \<open>v\<close> as it is. The templates write approve and reject buttons for
  Pending visitors only, so a call for a button that a template writes in this state is a
  call with another id and leaves \<open>v\<close> as it is.
\<close>

theorem approve_reject_overwrite_any_status:
  assumes "distinct (map v_id (visitors st))" and "v \<in> set (visitors st)"
    and "v_status v \<noteq> Pending"
  shows "find (\<lambda>w. v_id w = v_id v) (visitors (handleApprove (v_id v) st))
           = Some (v\<lparr>v_status := Approved\<rparr>)
       \<and> find (\<lambda>w. v_id w = v_id v) (visitors (handleReject (v_id v) st))
           = Some (v\<lparr>v_status := Rejected\<rparr>)
       \<and> (i \<noteq> v_id v \<or> written_for st Act_approve i
            \<longrightarrow> find (\<lambda>w. v_id w = v_id v) (visitors (handleApprove i st)) = Some v)
       \<and> (i \<noteq> v_id v \<or> written_for st Act_reject i
            \<longrightarrow> find (\<lambda>w. v_id w = v_id v) (visitors (handleReject i st)) = Some v)"
proof -
  have 1: "find (\<lambda>w. v_id w = v_id v) (visitors (handleApprove (v_id v) st))
           = Some (v\<lparr>v_status := Approved\<rparr>)"
    unfolding visitors_handleApprove using assms(1,2) by (rule find_after_upd) simp
  have 2: "find (\<lambda>w. v_id w = v_id v) (visitors (handleReject (v_id v) st))
           = Some (v\<lparr>v_status := Rejected\<rparr>)"
    unfolding visitors_handleReject using assms(1,2) by (rule find_after_upd) simp
  have na: "i \<noteq> v_id v" if "written_for st Act_approve i"
    using written_for_own_status [OF assms(1,2), of Act_approve] that assms(3) by auto
  have nr: "i \<noteq> v_id v" if "written_for st Act_reject i"
    using written_for_own_status [OF assms(1,2), of Act_reject] that assms(3) by auto
  have 3: "find (\<lambda>w. v_id w = v_id v) (visitors (handleApprove i st)) = Some v"
    if "i \<noteq> v_id v" using that
    unfolding visitors_handleApprove by (intro find_upd_other [OF assms(1,2)]) auto
  have 4: "find (\<lambda>w. v_id w = v_id v) (visitors (handleReject i st)) = Some v"
    if "i \<noteq> v_id v" using that
    unfolding visitors_handleReject by (intro find_upd_other [OF assms(1,2)]) auto
  from 1 2 3 4 na nr show ?thesis by blast
qed

text \<open>
  The Checked-out visitor 5 of the seed state with the Admin logged in: the calls with the
  id 5, and the calls with the id 3, for which the card of the Pending visitor 3 has the
  buttons.
\<close>

theorem approve_reject_overwrite_any_status_witness:
  "find (\<lambda>w. v_id w = 5) (visitors (handleApprove 5 (demo_state demo_admin)))
     = Some (eve\<lparr>v_status := Approved\<rparr>)
   \<and> find (\<lambda>w. v_id w = 5) (visitors (handleReject 5 (demo_state demo_admin)))
     = Some (eve\<lparr>v_status := Rejected\<rparr>)
   \<and> written_for (demo_state demo_admin) Act_approve 3
   \<and> written_for (demo_state demo_admin) Act_reject 3
   \<and> find (\<lambda>w. v_id w = 5) (visitors (handleApprove 3 (demo_state demo_admin))) = Some eve
   \<and> find (\<lambda>w. v_id w = 5) (visitors (handleReject 3 (demo_state demo_admin))) = Some eve"
proof -
  have d: "distinct (map v_id (visitors (demo_state demo_admin)))"
    by (simp add: demo_defs)
  have m: "eve \<in> set (visitors (demo_state demo_admin))"
    by (simp add: demo_defs)
  have s: "v_status eve \<noteq> Pending" by (simp add: demo_defs)
  have i: "v_id eve = 5" by (simp add: demo_defs)
  have w: "written_for (demo_state demo_admin) Act_approve 3"
    "written_for (demo_state demo_admin) Act_reject 3"
    by code_simp+
  show ?thesis
    using approve_reject_overwrite_any_status [OF d m s, of 3] i w by simp
qed

section \<open>Rejected and Checked-out are final for the buttons the templates write\<close>

text \<open>
  Called directly, \<open>handleApprove\<close> moves the Rejected visitor 4 to Approved and
  \<open>handleCheckIn\<close> moves the Checked-out visitor 5 to Checked-in.
\<close>

theorem terminal_status_unguarded_counterexample:
  "id_status (handleApprove 4 (demo_state demo_admin))
     = [(1, Approved), (2, Checked_in), (3, Pending), (4, Approved), (5, Checked_out)]
   \<and> id_status (handleCheckIn 5000 5 (demo_state demo_admin))
     = [(1, Approved), (2, Checked_in), (3, Pending), (4, Rejected), (5, Checked_in)]"
  by (simp add: id_status_def handleApprove_def handleCheckIn_def Let_def demo_defs)

text \<open>
  C2, as the code has it. Take a run of handler calls, of any handlers in any order,
  started with distinct visitor ids, in which every approve, reject, check-in and check-out
  call is for a button that a template writes in the state of the call, and every
  registration gets an id that no visitor has. Then the ids are distinct at the end, and a
  visitor that is Rejected or Checked-out at the start is still there with the same id,
  the same status and the same time stamps. Edits are not restricted: \<open>handleFormSubmit\<close>
  keeps the status and the time stamps of the visitor it rewrites.
\<close>

theorem terminal_status_kept_along_runs:
  assumes "distinct (map v_id (visitors st))" and "holds_along lifecycle_ok up lc es st"
    and "v \<in> set (visitors st)" and "v_status v = Rejected \<or> v_status v = Checked_out"
  shows "distinct (map v_id (visitors (run up lc es st)))
       \<and> (\<exists>v' \<in> set (visitors (run up lc es st)).
             v_id v' = v_id v \<and> v_status v' = v_status v
             \<and> v_checkInTime v' = v_checkInTime v \<and> v_checkOutTime v' = v_checkOutTime v)"
proof -
  have "distinct (map v_id (visitors (run up lc es st)))
       \<and> (\<exists>v' \<in> set (visitors (run up lc es st)). same_lifecycle v v')"
    using assms
  proof (induction es arbitrary: st v)
    case Nil
    then show ?case by (auto simp: same_lifecycle_def)
  next
    case (Cons e es)
    from Cons.prems have ok: "lifecycle_ok e st"
      and rest: "holds_along lifecycle_ok up lc es (step up lc e st)"
      by simp_all
    from step_terminal [OF Cons.prems(1) ok Cons.prems(3,4), of up lc]
    obtain w where d: "distinct (map v_id (visitors (step up lc e st)))"
      and w: "w \<in> set (visitors (step up lc e st))" "same_lifecycle v w" by blast
    from w(2) Cons.prems(4) have t: "v_status w = Rejected \<or> v_status w = Checked_out"
      by (simp add: same_lifecycle_def)
    from Cons.IH [OF d rest w(1) t] w(2) show ?case
      by (auto simp: same_lifecycle_def)
  qed
  then show ?thesis by (simp add: same_lifecycle_def)
qed

text \<open>
  The run \<open>demo_events\<close> from the seed state with the Admin logged in, and the
  Checked-out visitor 5, whom the run edits.
\<close>

theorem terminal_status_kept_along_runs_witness:
  "distinct (map v_id (visitors (demo_state demo_admin)))
   \<and> holds_along lifecycle_ok ascii_upper numeric_compare demo_events (demo_state demo_admin)
   \<and> eve \<in> set (visitors (demo_state demo_admin))
   \<and> distinct (map v_id (visitors (run ascii_upper numeric_compare demo_events (demo_state demo_admin))))
   \<and> (\<exists>v' \<in> set (visitors (run ascii_upper numeric_compare demo_events (demo_state demo_admin))).
         v_id v' = 5 \<and> v_status v' = Checked_out
         \<and> v_checkInTime v' = Some 1000 \<and> v_checkOutTime v' = Some 2000)
   \<and> id_status (run ascii_upper numeric_compare demo_events (demo_state demo_admin))
       = [(6000, Checked_out), (1, Checked_in), (2, Checked_in), (3, Pending), (4, Rejected),
          (5, Checked_out)]"
proof -
  have d: "distinct (map v_id (visitors (demo_state demo_admin)))"
    by (simp add: demo_defs)
  have f: "holds_along lifecycle_ok ascii_upper numeric_compare demo_events (demo_state demo_admin)"
    by code_simp
  have m: "eve \<in> set (visitors (demo_state demo_admin))"
    by (simp add: demo_defs)
  have s: "v_status eve = Rejected \<or> v_status eve = Checked_out" by (simp add: demo_defs)
  have e: "v_id eve = 5" "v_status eve = Checked_out" "v_checkInTime eve = Some 1000"
    "v_checkOutTime eve = Some 2000" by (simp_all add: demo_defs)
  have r: "id_status (run ascii_upper numeric_compare demo_events (demo_state demo_admin))
       = [(6000, Checked_out), (1, Checked_in), (2, Checked_in), (3, Pending), (4, Rejected),
          (5, Checked_out)]"
    by code_simp
  show ?thesis
    using terminal_status_kept_along_runs [OF d f m s] d f m e r by simp
qed

section \<open>Roles\<close>




section \<open>Check-in and check-out\<close>

text \<open>
  \<open>handleCheckIn\<close> checks the Pending visitor 3 in. \<open>handleCheckOut\<close> at the clock
  reading 500 stamps visitor 2, checked in at 1000, with a check-out time of 500.
\<close>

theorem check_in_out_unguarded_counterexample:
  "id_status (handleCheckIn 5000 3 (demo_state demo_security))
     = [(1, Approved), (2, Checked_in), (3, Checked_in), (4, Rejected), (5, Checked_out)]
   \<and> map v_checkInTime (visitors (handleCheckOut 500 2 (demo_state demo_security)))
     = [None, Some 1000, None, None, Some 1000]
   \<and> map v_checkOutTime (visitors (handleCheckOut 500 2 (demo_state demo_security)))
     = [None, Some 500, None, None, Some 2000]"
  by (simp add: id_status_def handleCheckIn_def handleCheckOut_def demo_defs)

text \<open>
  C4, as the code has it. Let the visitor ids be distinct. The templates write a check-in
  button for a visitor only when it is Approved and a check-out button only when it is
  Checked-in. \<open>handleCheckIn\<close> and \<open>handleCheckOut\<close> themselves take a visitor in any
  status: they set the status and stamp \<open>checkInTime\<close>, respectively \<open>checkOutTime\<close>,
  with the clock reading of the call, keeping the other fields. The code compares no time
  stamps: after a check-in at the reading \<open>now\<close> and a check-out at the reading \<open>later\<close>
  the record holds these two readings, whichever is the greater.
\<close>

theorem check_in_out_stamp_any_status:
  assumes "distinct (map v_id (visitors st))" and "v \<in> set (visitors st)"
  shows "(written_for st Act_check_in (v_id v) \<longrightarrow> v_status v = Approved)
       \<and> (written_for st Act_check_out (v_id v) \<longrightarrow> v_status v = Checked_in)
       \<and> find (\<lambda>w. v_id w = v_id v) (visitors (handleCheckIn now (v_id v) st))
           = Some (v\<lparr>v_status := Checked_in, v_checkInTime := Some now\<rparr>)
       \<and> find (\<lambda>w. v_id w = v_id v) (visitors (handleCheckOut now (v_id v) st))
           = Some (v\<lparr>v_status := Checked_out, v_checkOutTime := Some now\<rparr>)
       \<and> find (\<lambda>w. v_id w = v_id v)
           (visitors (handleCheckOut later (v_id v) (handleCheckIn now (v_id v) st)))
           = Some (v\<lparr>v_status := Checked_out, v_checkInTime := Some now,
                     v_checkOutTime := Some later\<rparr>)"
proof -
  have 1: "v_status v = Approved" if "written_for st Act_check_in (v_id v)"
    using written_for_own_status [OF assms that] by simp
  have 2: "v_status v = Checked_in" if "written_for st Act_check_out (v_id v)"
    using written_for_own_status [OF assms that] by simp
  have 3: "find (\<lambda>w. v_id w = v_id v) (visitors (handleCheckIn now (v_id v) st))
           = Some (v\<lparr>v_status := Checked_in, v_checkInTime := Some now\<rparr>)"
    unfolding visitors_handleCheckIn using assms by (rule find_after_upd) simp
  have 4: "find (\<lambda>w. v_id w = v_id v) (visitors (handleCheckOut now (v_id v) st))
           = Some (v\<lparr>v_status := Checked_out, v_checkOutTime := Some now\<rparr>)"
    unfolding visitors_handleCheckOut using assms by (rule find_after_upd) simp
  let ?st1 = "handleCheckIn now (v_id v) st"
  let ?v1 = "v\<lparr>v_status := Checked_in, v_checkInTime := Some now\<rparr>"
  have d1: "distinct (map v_id (visitors ?st1))"
    using assms(1) by (simp add: ids_handleCheckIn)
  have m1: "?v1 \<in> set (visitors ?st1)"
    unfolding visitors_handleCheckIn using assms(2) by (intro map_upd_hits) auto
  have "find (\<lambda>w. v_id w = v_id ?v1) (visitors (handleCheckOut later (v_id ?v1) ?st1))
           = Some (?v1\<lparr>v_status := Checked_out, v_checkOutTime := Some later\<rparr>)"
    unfolding visitors_handleCheckOut using d1 m1 by (rule find_after_upd) simp
  then have 5: "find (\<lambda>w. v_id w = v_id v)
           (visitors (handleCheckOut later (v_id v) (handleCheckIn now (v_id v) st)))
           = Some (v\<lparr>v_status := Checked_out, v_checkInTime := Some now,
                     v_checkOutTime := Some later\<rparr>)"
    by simp
  from 1 2 3 4 5 show ?thesis by blast
qed

text \<open>
  Visitor 2 of the seed state, Checked-in, with Security logged in: the card has the
  check-out button; a check-in at the reading 3000 followed by a check-out at the reading
  2500 leaves both readings in the record.
\<close>

theorem check_in_out_stamp_any_status_witness:
  "written_for (demo_state demo_security) Act_check_out 2
   \<and> v_status bob = Checked_in
   \<and> find (\<lambda>w. v_id w = 2) (visitors (handleCheckIn 3000 2 (demo_state demo_security)))
       = Some (bob\<lparr>v_status := Checked_in, v_checkInTime := Some 3000\<rparr>)
   \<and> find (\<lambda>w. v_id w = 2) (visitors (handleCheckOut 3000 2 (demo_state demo_security)))
       = Some (bob\<lparr>v_status := Checked_out, v_checkOutTime := Some 3000\<rparr>)
   \<and> find (\<lambda>w. v_id w = 2)
        (visitors (handleCheckOut 2500 2 (handleCheckIn 3000 2 (demo_state demo_security))))
       = Some (bob\<lparr>v_status := Checked_out, v_checkInTime := Some 3000,
                   v_checkOutTime := Some 2500\<rparr>)"
proof -
  have d: "distinct (map v_id (visitors (demo_state demo_security)))"
    by (simp add: demo_defs)
  have m: "bob \<in> set (visitors (demo_state demo_security))"
    by (simp add: demo_defs)
  have o: "written_for (demo_state demo_security) Act_check_out 2"
    by code_simp
  have i: "v_id bob = 2" by (simp add: demo_defs)
  show ?thesis
    using check_in_out_stamp_any_status [OF d m, where now = 3000 and later = 2500] o i by simp
qed

section \<open>The lock of a thread after an admin reply\<close>



section \<open>Starting a thread when the chat service fails\<close>

text \<open>
  When \<open>sendMessage\<close> throws in \<open>handleStartChatSubmit\<close>, the list of pending chats
  stays empty: no thread is created.
\<close>

theorem start_chat_failure_counterexample:
  "pendingChats (snd (handleStartChatSubmit 7000 ''resident101'' ''A'' ''101'' ''Is my guest here?'' None
      (demo_state demo_resident))) = []
   \<and> map sender (chatMessages (snd (handleStartChatSubmit 7000 ''resident101'' ''A'' ''101''
      ''Is my guest here?'' None (demo_state demo_resident)))) = [user, bot]
   \<and> activeChatId (snd (handleStartChatSubmit 7000 ''resident101'' ''A'' ''101''
      ''Is my guest here?'' None (demo_state demo_resident))) = Some 7000"
  by (simp add: handleStartChatSubmit_def Let_def demo_defs trim_def is_space_def)

text \<open>
  C9, as the code has it. With all four fields filled in, a failure of the chat service in
  \<open>handleStartChatSubmit\<close> raises no alert, leaves \<open>pendingChats\<close> as it was, and
  leaves the live chat with the user's first message followed by the apology as a bot
  message, the typing indicator off and \<open>activeChatId\<close> set to the id the thread would
  have had. A thread, holding the first message and the reply, is appended to
  \<open>pendingChats\<close> only when the service answers.
\<close>

theorem start_chat_failure_creates_no_thread:
  assumes "name \<noteq> []" and "blk \<noteq> []" and "hno \<noteq> []" and "trim query \<noteq> []"
  shows "fst (handleStartChatSubmit now name blk hno query None st) = None
       \<and> pendingChats (snd (handleStartChatSubmit now name blk hno query None st)) = pendingChats st
       \<and> chatMessages (snd (handleStartChatSubmit now name blk hno query None st))
           = [\<lparr>sender = user, text_of = trim query\<rparr>, \<lparr>sender = bot, text_of = start_apology\<rparr>]
       \<and> \<not> isBotTyping (snd (handleStartChatSubmit now name blk hno query None st))
       \<and> activeChatId (snd (handleStartChatSubmit now name blk hno query None st)) = Some (int now)
       \<and> map c_messages (pendingChats (snd (handleStartChatSubmit now name blk hno query (Some botText) st)))
           = map c_messages (pendingChats st)
             @ [[\<lparr>sender = user, text_of = trim query\<rparr>, \<lparr>sender = bot, text_of = botText\<rparr>]]"
  using assms by (simp add: handleStartChatSubmit_def Let_def)

text \<open>The Resident of unit A-101 asking for a guest.\<close>

theorem start_chat_failure_creates_no_thread_witness:
  "fst (handleStartChatSubmit 7000 ''resident101'' ''A'' ''101'' ''Is my guest here?'' None
      (demo_state demo_resident)) = None
   \<and> chatMessages (snd (handleStartChatSubmit 7000 ''resident101'' ''A'' ''101'' ''Is my guest here?'' None
      (demo_state demo_resident)))
       = [\<lparr>sender = user, text_of = ''Is my guest here?''\<rparr>, \<lparr>sender = bot, text_of = start_apology\<rparr>]
   \<and> map c_messages (pendingChats (snd (handleStartChatSubmit 7000 ''resident101'' ''A'' ''101''
      ''Is my guest here?'' (Some ''Not yet.'') (demo_state demo_resident))))
       = [[\<lparr>sender = user, text_of = ''Is my guest here?''\<rparr>, \<lparr>sender = bot, text_of = ''Not yet.''\<rparr>]]"
proof -
  have t: "trim ''Is my guest here?'' = ''Is my guest here?''"
    by (simp add: trim_def is_space_def)
  have p: "pendingChats (demo_state demo_resident) = []" by (simp add: demo_defs)
  have n: "''resident101'' \<noteq> []" "''A'' \<noteq> []" "''101'' \<noteq> []" "trim ''Is my guest here?'' \<noteq> []"
    by (simp_all add: t)
  show ?thesis
    using start_chat_failure_creates_no_thread [OF n, of 7000 "demo_state demo_resident" "''Not yet.''"] t p
    by simp
qed

section \<open>Deleting a user\<close>

text \<open>
  With two Admins, 1 (the current user) and 6: declining the confirmation keeps Admin 6,
  and Admin 1, who is not the only Admin, cannot delete their own account. Both lists are
  the six users; only the confirmed deletion of Admin 6 by Admin 1 removes a user.
\<close>

theorem delete_non_sole_admin_counterexample:
  "adminCount (users two_admins) = 2
   \<and> currentUserId two_admins = Some 1
   \<and> map u_id (users (snd (handleDeleteUser False 6 two_admins))) = [1, 2, 3, 4, 5, 6]
   \<and> map u_id (users (snd (handleDeleteUser True 1 two_admins))) = [1, 2, 3, 4, 5, 6]
   \<and> map u_id (users (snd (handleDeleteUser True 6 two_admins))) = [1, 2, 3, 4, 5]"
  by (simp add: handleDeleteUser_def adminCount_def currentUserId_def user_defs demo_defs)

text \<open>
  C6, as the code has it. With distinct user ids and the target in the list:
  \<open>handleDeleteUser\<close> refuses with an alert and leaves the state as it was when the target
  is the current user, and when the target is an Admin and there is at most one Admin. An
  Admin who is neither the current user nor the only Admin is deleted when the
  confirmation dialog is accepted, and then the list is the old one without that user and
  holds exactly one Admin fewer; when the dialog is declined nothing changes.
\<close>

theorem delete_user_guards:
  assumes "distinct (map u_id (users st))" and "u \<in> set (users st)"
  shows "(currentUserId st = Some (u_id u)
            \<longrightarrow> handleDeleteUser confirmed (u_id u) st = (Some ''You cannot delete your own account.'', st))
       \<and> (currentUserId st \<noteq> Some (u_id u) \<and> u_role u = Admin \<and> adminCount (users st) \<le> 1
            \<longrightarrow> handleDeleteUser confirmed (u_id u) st
                  = (Some ''You cannot delete the last administrator.'', st))
       \<and> (currentUserId st \<noteq> Some (u_id u) \<and> u_role u = Admin \<and> 1 < adminCount (users st)
            \<longrightarrow> handleDeleteUser False (u_id u) st = (None, st)
              \<and> fst (handleDeleteUser True (u_id u) st) = None
              \<and> users (snd (handleDeleteUser True (u_id u) st)) = filter (\<lambda>w. w \<noteq> u) (users st)
              \<and> adminCount (users (snd (handleDeleteUser True (u_id u) st))) + 1 = adminCount (users st))"
proof -
  have f: "find (\<lambda>w. u_id w = u_id u) (users st) = Some u"
    using assms by (rule find_distinct_uid)
  have 1: "handleDeleteUser confirmed (u_id u) st = (Some ''You cannot delete your own account.'', st)"
    if "currentUserId st = Some (u_id u)"
    using that f by (simp add: handleDeleteUser_def)
  have 2: "handleDeleteUser confirmed (u_id u) st = (Some ''You cannot delete the last administrator.'', st)"
    if "currentUserId st \<noteq> Some (u_id u)" "u_role u = Admin" "adminCount (users st) \<le> 1"
    using that f by (auto simp add: handleDeleteUser_def)
  have 3: "handleDeleteUser False (u_id u) st = (None, st)
              \<and> fst (handleDeleteUser True (u_id u) st) = None
              \<and> users (snd (handleDeleteUser True (u_id u) st)) = filter (\<lambda>w. w \<noteq> u) (users st)
              \<and> adminCount (users (snd (handleDeleteUser True (u_id u) st))) + 1 = adminCount (users st)"
    if "currentUserId st \<noteq> Some (u_id u)" "u_role u = Admin" "1 < adminCount (users st)"
    using that f adminCount_remove [OF assms that(2)] filter_other_ids [OF assms]
    by (auto simp add: handleDeleteUser_def)
  from 1 2 3 show ?thesis by blast
qed

text \<open>
  Admin 1 deleting their own account and Admin 6 among two Admins; Security deleting the
  only Admin of the seed users.
\<close>

theorem delete_user_guards_witness:
  "handleDeleteUser True 1 two_admins = (Some ''You cannot delete your own account.'', two_admins)
   \<and> handleDeleteUser False 6 two_admins = (None, two_admins)
   \<and> fst (handleDeleteUser True 6 two_admins) = None
   \<and> users (snd (handleDeleteUser True 6 two_admins)) = mockUsers
   \<and> adminCount (users (snd (handleDeleteUser True 6 two_admins))) + 1 = 2
   \<and> handleDeleteUser True 1 (demo_state demo_security)
       = (Some ''You cannot delete the last administrator.'', demo_state demo_security)"
proof -
  have d: "distinct (map u_id (users two_admins))" by (simp add: user_defs demo_defs)
  have m1: "demo_admin \<in> set (users two_admins)" by (simp add: user_defs demo_defs)
  have m6: "mk_user 6 ''admin2'' Admin None \<in> set (users two_admins)" by (simp add: user_defs demo_defs)
  have c: "currentUserId two_admins = Some 1" by (simp add: currentUserId_def user_defs demo_defs)
  have n: "adminCount (users two_admins) = 2" by (simp add: adminCount_def user_defs demo_defs)
  have i: "u_id demo_admin = 1" "u_id (mk_user 6 ''admin2'' Admin None) = 6"
    "u_role (mk_user 6 ''admin2'' Admin None) = Admin" "u_role demo_admin = Admin"
    by (simp_all add: demo_defs)
  have fl: "filter (\<lambda>w. w \<noteq> mk_user 6 ''admin2'' Admin None) (users two_admins) = mockUsers"
    by (simp add: user_defs demo_defs)
  have d': "distinct (map u_id (users (demo_state demo_security)))" by (simp add: user_defs demo_defs)
  have m': "demo_admin \<in> set (users (demo_state demo_security))" by (simp add: user_defs demo_defs)
  have c': "currentUserId (demo_state demo_security) = Some 2" by (simp add: currentUserId_def demo_defs)
  have n': "adminCount (users (demo_state demo_security)) = 1" by (simp add: adminCount_def user_defs demo_defs)
  have nm: "adminCount mockUsers = 1" by (simp add: adminCount_def user_defs demo_defs)
  show ?thesis
    using delete_user_guards [OF d m1, of True] delete_user_guards [OF d m6, of True]
      delete_user_guards [OF d' m', of True] c n i fl c' n' nm
    by simp
qed

section \<open>Changing a role\<close>

text \<open>
  C7. For a target id that \<open>parseInt\<close> gives as a number other than 0:
  \<open>handleRoleChange\<close> raises the last-administrator alert exactly when the target is
  the current user, the new role is not Admin and there is at most one Admin; it raises
  no other alert, and with the alert the state is as it was. With more than one Admin
  the change goes through (also on the current user): the target has the new role
  afterwards. A change that goes through keeps every other user, and the ids stay in
  place in either case.
\<close>

theorem change_role_last_admin_protection:
  assumes "uid \<noteq> 0"
  shows "(fst (handleRoleChange (Some uid) r st) = Some last_admin_alert)
           = (currentUserId st = Some uid \<and> r \<noteq> Admin \<and> adminCount (users st) \<le> 1)
       \<and> (fst (handleRoleChange (Some uid) r st) = None
            \<or> handleRoleChange (Some uid) r st = (Some last_admin_alert, st))
       \<and> (1 < adminCount (users st) \<and> u \<in> set (users st) \<and> u_id u = uid
            \<longrightarrow> fst (handleRoleChange (Some uid) r st) = None
              \<and> u\<lparr>u_role := r\<rparr> \<in> set (users (snd (handleRoleChange (Some uid) r st))))
       \<and> (fst (handleRoleChange (Some uid) r st) = None \<and> w \<in> set (users st) \<and> u_id w \<noteq> uid
            \<longrightarrow> w \<in> set (users (snd (handleRoleChange (Some uid) r st))))
       \<and> map u_id (users (snd (handleRoleChange (Some uid) r st))) = map u_id (users st)"
proof -
  let ?res = "handleRoleChange (Some uid) r st"
  let ?blocked = "currentUserId st = Some uid \<and> r \<noteq> Admin \<and> adminCount (users st) \<le> 1"
  have t: "truthy_id (Some uid)" using assms by (simp add: truthy_id_def)
  have blocked: "?res = (Some last_admin_alert, st)" if "?blocked"
    using that t by (simp add: handleRoleChange_def Let_def)
  have free: "?res = (None, st\<lparr>users := map (\<lambda>w. if Some (u_id w) = Some uid then w\<lparr>u_role := r\<rparr> else w)
                                            (users st)\<rparr>)" if "\<not> ?blocked"
    using that t by (auto simp add: handleRoleChange_def Let_def)
  have 1: "(fst ?res = Some last_admin_alert) = ?blocked"
    using blocked free by (cases "?blocked") simp_all
  have 2: "fst ?res = None \<or> ?res = (Some last_admin_alert, st)"
    using blocked free by (cases "?blocked") simp_all
  have 3: "1 < adminCount (users st) \<and> u \<in> set (users st) \<and> u_id u = uid
            \<longrightarrow> fst ?res = None \<and> u\<lparr>u_role := r\<rparr> \<in> set (users (snd ?res))"
  proof (intro impI, elim conjE)
    assume that: "1 < adminCount (users st)" "u \<in> set (users st)" "u_id u = uid"
    from that(1) have "\<not> ?blocked" by simp
    from free [OF this] that(2,3) show "fst ?res = None \<and> u\<lparr>u_role := r\<rparr> \<in> set (users (snd ?res))"
      by (simp add: map_role_upd_hits)
  qed
  have 4: "fst ?res = None \<and> w \<in> set (users st) \<and> u_id w \<noteq> uid
            \<longrightarrow> w \<in> set (users (snd ?res))"
  proof (intro impI, elim conjE)
    assume that: "fst ?res = None" "w \<in> set (users st)" "u_id w \<noteq> uid"
    show "w \<in> set (users (snd ?res))"
    proof (cases "?blocked")
      case True
      from blocked [OF True] that(1) show ?thesis by simp
    next
      case False
      from free [OF False] that(2,3) show ?thesis by (simp add: map_role_upd_keeps)
    qed
  qed
  have 5: "map u_id (users (snd ?res)) = map u_id (users st)"
  proof (cases "?blocked")
    case True
    from blocked [OF True] show ?thesis by simp
  next
    case False
    from free [OF False] show ?thesis by (simp add: map_role_upd_ids)
  qed
  from 1 2 3 4 5 show ?thesis by (intro conjI)
qed

text \<open>
  The scenario of the specification: with Admin 1 as the only Admin the change of their
  own role to Security is refused; with a second Admin 6 it goes through.
\<close>

theorem change_role_last_admin_protection_witness:
  "handleRoleChange (Some 1) Security (demo_state demo_admin) = (Some last_admin_alert, demo_state demo_admin)
   \<and> fst (handleRoleChange (Some 1) Security two_admins) = None
   \<and> demo_admin\<lparr>u_role := Security\<rparr> \<in> set (users (snd (handleRoleChange (Some 1) Security two_admins)))
   \<and> mk_user 6 ''admin2'' Admin None \<in> set (users (snd (handleRoleChange (Some 1) Security two_admins)))
   \<and> map u_id (users (snd (handleRoleChange (Some 1) Security two_admins))) = [1, 2, 3, 4, 5, 6]"
proof -
  have z: "(1::int) \<noteq> 0" by simp
  have c1: "currentUserId (demo_state demo_admin) = Some 1" "currentUserId two_admins = Some 1"
    by (simp_all add: currentUserId_def user_defs demo_defs)
  have n1: "adminCount (users (demo_state demo_admin)) = 1" "adminCount (users two_admins) = 2"
    by (simp_all add: adminCount_def user_defs demo_defs)
  have m: "demo_admin \<in> set (users two_admins)" "mk_user 6 ''admin2'' Admin None \<in> set (users two_admins)"
    by (simp_all add: user_defs demo_defs)
  have i: "u_id demo_admin = 1" "u_id (mk_user 6 ''admin2'' Admin None) = 6" by (simp_all add: demo_defs)
  have ids: "map u_id (users two_admins) = [1, 2, 3, 4, 5, 6]" by (simp add: user_defs demo_defs)
  show ?thesis
    using change_role_last_admin_protection [OF z, of Security "demo_state demo_admin" demo_admin demo_admin]
      change_role_last_admin_protection [OF z, of Security two_admins demo_admin "mk_user 6 ''admin2'' Admin None"]
      c1 n1 m i ids
    by auto
qed

text \<open>An id that is 0 or not a number is ignored without an alert.\<close>

lemma handleRoleChange_falsy_id:
  "handleRoleChange None r st = (None, st) \<and> handleRoleChange (Some 0) r st = (None, st)"
  by (simp add: handleRoleChange_def truthy_id_def)

section \<open>Adding a unit\<close>

text \<open>
  C8. Let \<open>localeCompare\<close> be a consistent comparison, and let \<open>toUpperCase\<close> give the
  empty string for the empty string only. \<open>handleAddUnitSubmit\<close> raises
  the missing-field alert when the block or the house number is empty after trimming, and
  the duplicate alert when both are there and the registry holds the unit of the trimmed,
  upper-cased block and the trimmed house number; in both cases the state, and so the
  registry and its size, is as it was. Otherwise it raises no alert, and the new registry
  is sorted by block (the order \<open><\<close> of strings) and within a block by house number
  under \<open>localeCompare\<close>, and holds the old units and the new one.
\<close>

theorem add_unit_validates_and_sorts:
  assumes "consistent_compare lc" and "\<And>s. (up s = []) = (s = [])"
  shows "(trim b = [] \<or> trim h = []
            \<longrightarrow> handleAddUnitSubmit up lc b h st = (Some ''Both Block and House No. are required.'', st))
       \<and> (trim b \<noteq> [] \<and> trim h \<noteq> []
            \<and> \<lparr>block = up (trim b), houseNo = trim h\<rparr> \<in> set (predefinedUnits st)
            \<longrightarrow> handleAddUnitSubmit up lc b h st = (Some ''This unit already exists.'', st))
       \<and> (trim b \<noteq> [] \<and> trim h \<noteq> []
            \<and> \<lparr>block = up (trim b), houseNo = trim h\<rparr> \<notin> set (predefinedUnits st)
            \<longrightarrow> fst (handleAddUnitSubmit up lc b h st) = None
              \<and> sorted_wrt (unit_le lc) (predefinedUnits (snd (handleAddUnitSubmit up lc b h st)))
              \<and> mset (predefinedUnits (snd (handleAddUnitSubmit up lc b h st)))
                  = add_mset \<lparr>block = up (trim b), houseNo = trim h\<rparr> (mset (predefinedUnits st)))"
proof -
  have s: "sorted_wrt (unit_le lc) (sort_by (unit_compare lc) xs)" for xs
    using unit_le_total [OF assms(1)] unit_le_trans [OF assms(1)] unit_compare_le
    by (rule sorted_sort_by)
  show ?thesis
    by (simp add: handleAddUnitSubmit_def Let_def list_ex_unit assms(2) s mset_sort_by)
qed

text \<open>
  With house numbers compared as numbers and \<open>ascii_upper\<close> for \<open>toUpperCase\<close>, unit A-9
  added to A-10 and B-2 goes in front of A-10.
\<close>

theorem add_unit_validates_and_sorts_witness:
  "handleAddUnitSubmit ascii_upper numeric_compare ''  '' ''9'' unit_A10
     = (Some ''Both Block and House No. are required.'', unit_A10)
   \<and> handleAddUnitSubmit ascii_upper numeric_compare ''a'' '' 10 '' unit_A10
     = (Some ''This unit already exists.'', unit_A10)
   \<and> predefinedUnits (snd (handleAddUnitSubmit ascii_upper numeric_compare '' a'' ''9'' unit_A10))
     = [\<lparr>block = ''A'', houseNo = ''9''\<rparr>, \<lparr>block = ''A'', houseNo = ''10''\<rparr>,
        \<lparr>block = ''B'', houseNo = ''2''\<rparr>]
   \<and> sorted_wrt (unit_le numeric_compare)
        (predefinedUnits (snd (handleAddUnitSubmit ascii_upper numeric_compare '' a'' ''9'' unit_A10)))
   \<and> size (mset (predefinedUnits (snd (handleAddUnitSubmit ascii_upper numeric_compare '' a'' ''9'' unit_A10)))) = 3"
proof -
  have t: "trim ''  '' = []" "trim ''a'' = ''a''" "trim '' 10 '' = ''10''" "trim '' a'' = ''a''"
    "trim ''9'' = ''9''"
    by (simp_all add: trim_def is_space_def)
  have c: "ascii_upper ''a'' = ''A''" by code_simp
  have e: "(ascii_upper s = []) = (s = [])" for s by (simp add: ascii_upper_def)
  have u: "predefinedUnits unit_A10 = [\<lparr>block = ''A'', houseNo = ''10''\<rparr>, \<lparr>block = ''B'', houseNo = ''2''\<rparr>]"
    by (simp add: unit_A10_def)
  have r: "predefinedUnits (snd (handleAddUnitSubmit ascii_upper numeric_compare '' a'' ''9'' unit_A10))
     = [\<lparr>block = ''A'', houseNo = ''9''\<rparr>, \<lparr>block = ''A'', houseNo = ''10''\<rparr>,
        \<lparr>block = ''B'', houseNo = ''2''\<rparr>]"
    by code_simp
  show ?thesis
    using add_unit_validates_and_sorts [OF numeric_compare_consistent e, of "''  ''" "''9''" unit_A10]
      add_unit_validates_and_sorts [OF numeric_compare_consistent e, of "''a''" "'' 10 ''" unit_A10]
      add_unit_validates_and_sorts [OF numeric_compare_consistent e, of "'' a''" "''9''" unit_A10]
      t c u r
    by simp
qed

end
